theory Spec2Isabelle
  imports Complex_Main
begin

section \<open>Fixed-size dense matrices\<close>

text \<open>
  The source works on \<^verbatim>\<open>Eigen::Matrix<double, R, C>\<close> values whose dimensions are
  template parameters. A matrix is modelled as the list of its rows; the template
  dimensions are explicit arguments of every operation, as they are explicit template
  arguments in the source. The scalar type \<^verbatim>\<open>double\<close> is idealised as \<open>real\<close>: rounding,
  infinities and NaN are outside this development. A column vector
  \<^verbatim>\<open>Eigen::Matrix<double, N, 1>\<close> is a matrix with one column.
\<close>

type_synonym 'a mat = "'a list list"

definition mat_of :: "nat \<Rightarrow> nat \<Rightarrow> (nat \<Rightarrow> nat \<Rightarrow> 'a) \<Rightarrow> 'a mat" where
  "mat_of r c f = map (\<lambda>i. map (\<lambda>j. f i j) [0..<c]) [0..<r]"

definition wf_mat :: "nat \<Rightarrow> nat \<Rightarrow> 'a mat \<Rightarrow> bool" where
  "wf_mat r c M = (length M = r \<and> list_all (\<lambda>row. length row = c) M)"

text \<open>\<^verbatim>\<open>M.transpose()\<close> for an \<open>r \<times> c\<close> matrix \<open>M\<close>.\<close>

definition transpose_mat :: "nat \<Rightarrow> nat \<Rightarrow> 'a mat \<Rightarrow> 'a mat" where
  "transpose_mat r c M = mat_of c r (\<lambda>i j. M ! j ! i)"

definition add_mat :: "nat \<Rightarrow> nat \<Rightarrow> real mat \<Rightarrow> real mat \<Rightarrow> real mat" where
  "add_mat r c X Y = mat_of r c (\<lambda>i j. X ! i ! j + Y ! i ! j)"

definition sub_mat :: "nat \<Rightarrow> nat \<Rightarrow> real mat \<Rightarrow> real mat \<Rightarrow> real mat" where
  "sub_mat r c X Y = mat_of r c (\<lambda>i j. X ! i ! j - Y ! i ! j)"

definition neg_mat :: "nat \<Rightarrow> nat \<Rightarrow> real mat \<Rightarrow> real mat" where
  "neg_mat r c X = mat_of r c (\<lambda>i j. - (X ! i ! j))"

text \<open>\<^verbatim>\<open>X * s\<close> and \<^verbatim>\<open>X / s\<close> for a scalar \<open>s\<close>.\<close>

definition scale_mat :: "nat \<Rightarrow> nat \<Rightarrow> real mat \<Rightarrow> real \<Rightarrow> real mat" where
  "scale_mat r c X s = mat_of r c (\<lambda>i j. X ! i ! j * s)"

definition div_mat :: "nat \<Rightarrow> nat \<Rightarrow> real mat \<Rightarrow> real \<Rightarrow> real mat" where
  "div_mat r c X s = mat_of r c (\<lambda>i j. X ! i ! j / s)"

text \<open>\<^verbatim>\<open>X * Y\<close> for an \<open>r \<times> n\<close> matrix \<open>X\<close> and an \<open>n \<times> c\<close> matrix \<open>Y\<close>.\<close>

definition mul_mat :: "nat \<Rightarrow> nat \<Rightarrow> nat \<Rightarrow> real mat \<Rightarrow> real mat \<Rightarrow> real mat" where
  "mul_mat r n c X Y = mat_of r c (\<lambda>i j. \<Sum>k\<leftarrow>[0..<n]. X ! i ! k * Y ! k ! j)"

text \<open>\<^verbatim>\<open>setZero()\<close> on an \<open>r \<times> c\<close> matrix.\<close>

definition zero_mat :: "nat \<Rightarrow> nat \<Rightarrow> real mat" where
  "zero_mat r c = mat_of r c (\<lambda>i j. 0)"

text \<open>\<^verbatim>\<open>M.block(i0, j0, r, c)\<close>: the \<open>r \<times> c\<close> block of \<open>M\<close> whose top-left corner is \<open>(i0, j0)\<close>.\<close>

definition block :: "'a mat \<Rightarrow> nat \<Rightarrow> nat \<Rightarrow> nat \<Rightarrow> nat \<Rightarrow> 'a mat" where
  "block M i0 j0 r c = mat_of r c (\<lambda>i j. M ! (i0 + i) ! (j0 + j))"

text \<open>
  A \<open>2n \<times> 2n\<close> matrix whose four \<open>n \<times> n\<close> blocks are assigned one by one, as
  \<^verbatim>\<open>discretize_AQ\<close> fills \<^verbatim>\<open>M\<close>.
\<close>

definition blocks4 :: "nat \<Rightarrow> real mat \<Rightarrow> real mat \<Rightarrow> real mat \<Rightarrow> real mat \<Rightarrow> real mat" where
  "blocks4 n X11 X12 X21 X22 =
     mat_of (2 * n) (2 * n) (\<lambda>i j.
       if i < n then (if j < n then X11 ! i ! j else X12 ! i ! (j - n))
       else (if j < n then X21 ! (i - n) ! j else X22 ! (i - n) ! (j - n)))"

section \<open>Covariance builder\<close>

text \<open>
  \<^verbatim>\<open>make_cov_matrix\<close>: the loop \<^verbatim>\<open>for (size_t i = 0; i < N; ++i) diag(i) = std::pow(stdDevs[i], 2)\<close>
  over the diagonal of an \<^verbatim>\<open>Eigen::DiagonalMatrix<double, N>\<close>, which the return statement
  converts to a dense \<open>N \<times> N\<close> matrix (zero off the diagonal).
\<close>

function make_cov_matrix_loop :: "nat \<Rightarrow> nat \<Rightarrow> real list \<Rightarrow> real list \<Rightarrow> real list" where
  "make_cov_matrix_loop N i stdDevs diag =
     (if i < N then make_cov_matrix_loop N (i + 1) stdDevs (diag[i := (stdDevs ! i) ^ 2])
      else diag)"
  by pat_completeness auto
termination
  by (relation "measure (\<lambda>(N, i, stdDevs, diag). N - i)") auto

declare make_cov_matrix_loop.simps [simp del]

definition diagonal_to_dense :: "nat \<Rightarrow> real list \<Rightarrow> real mat" where
  "diagonal_to_dense N diag = mat_of N N (\<lambda>i j. if i = j then diag ! i else 0)"

text \<open>
  The diagonal's storage is uninitialised in the source before the loop; the loop
  overwrites each of its \<open>N\<close> entries (lemma \<open>make_cov_matrix_loop_init\<close> below), so the
  initial content chosen here is immaterial.
\<close>

definition make_cov_matrix :: "nat \<Rightarrow> real list \<Rightarrow> real mat" where
  "make_cov_matrix N stdDevs =
     diagonal_to_dense N (make_cov_matrix_loop N 0 stdDevs (replicate N 0))"

section \<open>Delegated numerical linear algebra\<close>

text \<open>
  The matrix exponential (\<^verbatim>\<open>MatrixBase::exp()\<close>), the eigenvalue solver
  (\<^verbatim>\<open>Eigen::EigenSolver\<close>), the rank of the column-pivoting QR decomposition
  (\<^verbatim>\<open>ColPivHouseholderQR::rank()\<close>), the Riccati solver
  (\<^verbatim>\<open>drake::math::DiscreteAlgebraicRiccatiEquation\<close>) and the LDLT solve
  (\<^verbatim>\<open>S.ldlt().solve(B)\<close>) are library code outside the repository's source file. They are
  parameters of the model, collected in one record. The Riccati solver may fail (it raises
  on inputs it rejects); \<open>None\<close> stands for that.
\<close>

record linalg =
  expm :: "real mat \<Rightarrow> real mat"
  eigenvalues :: "real mat \<Rightarrow> complex list"
  qr_rank :: "complex mat \<Rightarrow> nat"
  dare :: "real mat \<Rightarrow> real mat \<Rightarrow> real mat \<Rightarrow> real mat \<Rightarrow> real mat option"
  ldlt_solve :: "real mat \<Rightarrow> real mat \<Rightarrow> real mat"

section \<open>Stabilizability check\<close>

text \<open>
  The complex \<open>States \<times> (States + Inputs)\<close> matrix \<^verbatim>\<open>E << ev * Identity() - A, B\<close> that
  \<^verbatim>\<open>is_stabilizable\<close> builds for the eigenvalue \<open>ev\<close>.
\<close>

definition stabilizable_E :: "nat \<Rightarrow> nat \<Rightarrow> complex \<Rightarrow> real mat \<Rightarrow> real mat \<Rightarrow> complex mat" where
  "stabilizable_E States Inputs ev A B =
     mat_of States (States + Inputs) (\<lambda>i j.
       if j < States then ev * (if i = j then 1 else 0) - complex_of_real (A ! i ! j)
       else complex_of_real (B ! i ! (j - States)))"

text \<open>The loop \<^verbatim>\<open>for (int i = 0; i < States; ++i)\<close> of \<^verbatim>\<open>is_stabilizable\<close>, from index \<open>i\<close> on.\<close>

function is_stabilizable_loop ::
  "linalg \<Rightarrow> nat \<Rightarrow> nat \<Rightarrow> real mat \<Rightarrow> real mat \<Rightarrow> nat \<Rightarrow> bool" where
  "is_stabilizable_loop la States Inputs A B i =
     (if i < States then
        (if Re (eigenvalues la A ! i) * Re (eigenvalues la A ! i) +
            Im (eigenvalues la A ! i) * Im (eigenvalues la A ! i) < 1
         then is_stabilizable_loop la States Inputs A B (i + 1)
         else if qr_rank la (stabilizable_E States Inputs (eigenvalues la A ! i) A B) < States
         then False
         else is_stabilizable_loop la States Inputs A B (i + 1))
      else True)"
  by pat_completeness auto
termination
  by (relation "measure (\<lambda>(la, States, Inputs, A, B, i). States - i)") auto

declare is_stabilizable_loop.simps [simp del]

definition is_stabilizable :: "linalg \<Rightarrow> nat \<Rightarrow> nat \<Rightarrow> real mat \<Rightarrow> real mat \<Rightarrow> bool" where
  "is_stabilizable la States Inputs A B = is_stabilizable_loop la States Inputs A B 0"

section \<open>Discretizer\<close>

definition discretize_A :: "linalg \<Rightarrow> nat \<Rightarrow> real mat \<Rightarrow> real \<Rightarrow> real mat" where
  "discretize_A la States contA dt = expm la (scale_mat States States contA dt)"

definition discretize_AQ ::
  "linalg \<Rightarrow> nat \<Rightarrow> real mat \<Rightarrow> real mat \<Rightarrow> real \<Rightarrow> real mat \<times> real mat" where
  "discretize_AQ la States cont_A cont_Q dt =
     (let Q = div_mat States States
                (add_mat States States cont_Q (transpose_mat States States cont_Q)) 2;
          M = blocks4 States (neg_mat States States cont_A) Q (zero_mat States States)
                (transpose_mat States States cont_A);
          phi = expm la (scale_mat (2 * States) (2 * States) M dt);
          phi12 = block phi 0 States States States;
          phi22 = block phi States States States States;
          disc_A = transpose_mat States States phi22;
          Q = mul_mat States States States disc_A phi12
      in (disc_A,
          div_mat States States (add_mat States States Q (transpose_mat States States Q)) 2))"

text \<open>
  The loop \<^verbatim>\<open>for (int i = 2; i < 6; ++i)\<close> of \<^verbatim>\<open>discretize_AQ_taylor\<close>, from index \<open>i\<close> on,
  over the variables \<^verbatim>\<open>last_term\<close>, \<^verbatim>\<open>last_coeff\<close>, \<^verbatim>\<open>phi12\<close> and \<^verbatim>\<open>Atn\<close>.
\<close>

function discretize_AQ_taylor_loop ::
  "nat \<Rightarrow> real mat \<Rightarrow> real mat \<Rightarrow> real \<Rightarrow> nat \<Rightarrow>
   real mat \<times> real \<times> real mat \<times> real mat \<Rightarrow> real mat \<times> real \<times> real mat \<times> real mat" where
  "discretize_AQ_taylor_loop States cont_A Q dt i (last_term, last_coeff, phi12, Atn) =
     (if i < 6 then
        discretize_AQ_taylor_loop States cont_A Q dt (i + 1)
          (add_mat States States
             (mul_mat States States States (neg_mat States States cont_A) last_term)
             (mul_mat States States States Q Atn),
           last_coeff * (dt / real i),
           add_mat States States phi12
             (scale_mat States States
                (add_mat States States
                   (mul_mat States States States (neg_mat States States cont_A) last_term)
                   (mul_mat States States States Q Atn))
                (last_coeff * (dt / real i))),
           mul_mat States States States Atn (transpose_mat States States cont_A))
      else (last_term, last_coeff, phi12, Atn))"
  by pat_completeness auto
termination
  by (relation "measure (\<lambda>(States, cont_A, Q, dt, i, st). 6 - i)") auto

declare discretize_AQ_taylor_loop.simps [simp del]

definition discretize_AQ_taylor ::
  "linalg \<Rightarrow> nat \<Rightarrow> real mat \<Rightarrow> real mat \<Rightarrow> real \<Rightarrow> real mat \<times> real mat" where
  "discretize_AQ_taylor la States cont_A cont_Q dt =
     (let Q = div_mat States States
                (add_mat States States cont_Q (transpose_mat States States cont_Q)) 2;
          last_term = Q;
          last_coeff = dt;
          Atn = transpose_mat States States cont_A;
          phi12 = scale_mat States States last_term last_coeff;
          (last_term, last_coeff, phi12, Atn) =
            discretize_AQ_taylor_loop States cont_A Q dt 2 (last_term, last_coeff, phi12, Atn);
          disc_A = discretize_A la States cont_A dt;
          Q = mul_mat States States States disc_A phi12
      in (disc_A,
          div_mat States States (add_mat States States Q (transpose_mat States States Q)) 2))"

definition discretize_R :: "nat \<Rightarrow> real mat \<Rightarrow> real \<Rightarrow> real mat" where
  "discretize_R Outputs R dt = div_mat Outputs Outputs R dt"

section \<open>The truncated series in the specification's words\<close>

text \<open>
  The specification describes the truncated series as a fixed list of refinement steps
  \<open>i = 2, 3, 4, 5\<close> over a running term \<open>T\<close>, a coefficient \<open>c\<close>, the accumulator \<open>\<Phi>12\<close> and
  the current power of the transposed system matrix. This second definition follows
  those words, with the power kept as an exponent; it is compared with
  \<open>discretize_AQ_taylor\<close> below.
\<close>

definition symmetrize :: "nat \<Rightarrow> real mat \<Rightarrow> real mat" where
  "symmetrize n M = div_mat n n (add_mat n n M (transpose_mat n n M)) 2"

definition identity_mat :: "nat \<Rightarrow> real mat" where
  "identity_mat n = mat_of n n (\<lambda>i j. if i = j then 1 else 0)"

fun mat_pow :: "nat \<Rightarrow> real mat \<Rightarrow> nat \<Rightarrow> real mat" where
  "mat_pow n M 0 = identity_mat n"
| "mat_pow n M (Suc 0) = M"
| "mat_pow n M (Suc (Suc k)) = mul_mat n n n (mat_pow n M (Suc k)) M"

definition series_steps :: "nat list" where
  "series_steps = [2, 3, 4, 5]"

definition series_step ::
  "nat \<Rightarrow> real mat \<Rightarrow> real mat \<Rightarrow> real \<Rightarrow> real mat \<times> real \<times> real mat \<times> nat \<Rightarrow> nat \<Rightarrow>
   real mat \<times> real \<times> real mat \<times> nat" where
  "series_step n A Q_sym dt st i =
     (case st of (T, c, Phi12, p) \<Rightarrow>
        let T' = add_mat n n (mul_mat n n n (neg_mat n n A) T)
                   (mul_mat n n n Q_sym (mat_pow n (transpose_mat n n A) p));
            c' = c * dt / real i
        in (T', c', add_mat n n Phi12 (scale_mat n n T' c'), p + 1))"

definition discretize_AQ_series ::
  "linalg \<Rightarrow> nat \<Rightarrow> real mat \<Rightarrow> real mat \<Rightarrow> real \<Rightarrow> real mat \<times> real mat" where
  "discretize_AQ_series la n A Q dt =
     (let Q_sym = symmetrize n Q;
          (T, c, Phi12, p) =
            foldl (series_step n A Q_sym dt) (Q_sym, dt, scale_mat n n Q_sym dt, 1) series_steps;
          discA = expm la (scale_mat n n A dt)
      in (discA, symmetrize n (mul_mat n n n discA Phi12)))"

section \<open>The filter\<close>

text \<open>
  The private fields of \<^verbatim>\<open>class kalman_filter\<close>. The fields \<^verbatim>\<open>A\<close>, \<^verbatim>\<open>C\<close>, \<^verbatim>\<open>_K\<close> and
  \<^verbatim>\<open>_x_hat\<close> carry the prefix \<open>kf_\<close> here.
\<close>

record kalman_filter =
  kf_A :: "real mat"
  kf_C :: "real mat"
  kf_disc_A_nominal :: "real mat"
  kf_K :: "real mat"
  kf_x_hat :: "real mat"

datatype error = Not_observable | Riccati_failure | Index_out_of_range

definition reset :: "nat \<Rightarrow> kalman_filter \<Rightarrow> kalman_filter" where
  "reset States f = f\<lparr>kf_x_hat := zero_mat States 1\<rparr>"

text \<open>
  The constructor. \<^verbatim>\<open>throw std::invalid_argument\<close> is the result \<open>Inl Not_observable\<close>. The
  field \<^verbatim>\<open>_x_hat\<close> is uninitialised until the final \<^verbatim>\<open>reset()\<close> overwrites it.
\<close>

definition kalman_filter_ctor ::
  "linalg \<Rightarrow> nat \<Rightarrow> nat \<Rightarrow> real mat \<Rightarrow> real mat \<Rightarrow> real list \<Rightarrow> real list \<Rightarrow> real \<Rightarrow>
   error + kalman_filter" where
  "kalman_filter_ctor la States Outputs A C state_std_devs measurement_std_devs dt =
     (let cont_Q = make_cov_matrix States state_std_devs;
          cont_R = make_cov_matrix Outputs measurement_std_devs;
          (disc_A, disc_Q) = discretize_AQ_taylor la States A cont_Q dt;
          disc_R = discretize_R Outputs cont_R dt;
          is_observable = is_stabilizable la States Outputs
                            (transpose_mat States States disc_A) (transpose_mat Outputs States C)
      in if \<not> is_observable then Inl Not_observable
         else
           (case dare la (transpose_mat States States disc_A) (transpose_mat Outputs States C)
                   disc_Q disc_R of
              None \<Rightarrow> Inl Riccati_failure
            | Some P \<Rightarrow>
                let S = add_mat Outputs Outputs
                          (mul_mat Outputs States Outputs
                             (mul_mat Outputs States States C P)
                             (transpose_mat Outputs States C))
                          disc_R;
                    K = transpose_mat Outputs States
                          (ldlt_solve la (transpose_mat Outputs Outputs S)
                             (mul_mat Outputs States States C (transpose_mat States States P)))
                in Inr (reset States
                     \<lparr>kf_A = A, kf_C = C, kf_disc_A_nominal = disc_A, kf_K = K,
                      kf_x_hat = zero_mat States 1\<rparr>)))"

text \<open>The accessors are \<^verbatim>\<open>const\<close> member functions: they read the filter and return a value.\<close>

definition K_get :: "kalman_filter \<Rightarrow> real mat" where
  "K_get f = kf_K f"

definition K_at :: "nat \<Rightarrow> nat \<Rightarrow> kalman_filter \<Rightarrow> int \<Rightarrow> int \<Rightarrow> error + real" where
  "K_at States Outputs f i j =
     (if 0 \<le> i \<and> i < int States \<and> 0 \<le> j \<and> j < int Outputs
      then Inr (kf_K f ! nat i ! nat j) else Inl Index_out_of_range)"

definition x_hat_get :: "kalman_filter \<Rightarrow> real mat" where
  "x_hat_get f = kf_x_hat f"

definition x_hat_at :: "nat \<Rightarrow> kalman_filter \<Rightarrow> int \<Rightarrow> error + real" where
  "x_hat_at States f i =
     (if 0 \<le> i \<and> i < int States then Inr (kf_x_hat f ! nat i ! 0) else Inl Index_out_of_range)"

definition set_x_hat :: "kalman_filter \<Rightarrow> real mat \<Rightarrow> kalman_filter" where
  "set_x_hat f x_hat = f\<lparr>kf_x_hat := x_hat\<rparr>"

text \<open>
  \<^verbatim>\<open>set_x_hat(int i, double value)\<close> writes \<^verbatim>\<open>_x_hat(i)\<close>; Eigen asserts that the index is
  in range, which is the error result here.
\<close>

definition set_x_hat_at :: "nat \<Rightarrow> kalman_filter \<Rightarrow> int \<Rightarrow> real \<Rightarrow> error + kalman_filter" where
  "set_x_hat_at States f i v =
     (if 0 \<le> i \<and> i < int States
      then Inr (f\<lparr>kf_x_hat := (kf_x_hat f)[nat i := (kf_x_hat f ! nat i)[0 := v]]\<rparr>)
      else Inl Index_out_of_range)"

text \<open>\<^verbatim>\<open>predict(double dt)\<close>, \<^verbatim>\<open>predict()\<close> and \<^verbatim>\<open>correct(y)\<close>.\<close>

definition predict :: "linalg \<Rightarrow> nat \<Rightarrow> kalman_filter \<Rightarrow> real \<Rightarrow> kalman_filter" where
  "predict la States f dt =
     (let disc_A = discretize_A la States (kf_A f) dt
      in f\<lparr>kf_x_hat := mul_mat States States 1 disc_A (kf_x_hat f)\<rparr>)"

definition predict_nominal :: "nat \<Rightarrow> kalman_filter \<Rightarrow> kalman_filter" where
  "predict_nominal States f =
     f\<lparr>kf_x_hat := mul_mat States States 1 (kf_disc_A_nominal f) (kf_x_hat f)\<rparr>"

definition correct :: "nat \<Rightarrow> nat \<Rightarrow> kalman_filter \<Rightarrow> real mat \<Rightarrow> kalman_filter" where
  "correct States Outputs f y =
     f\<lparr>kf_x_hat := add_mat States 1 (kf_x_hat f)
         (mul_mat States Outputs 1 (kf_K f)
            (sub_mat Outputs 1 y (mul_mat Outputs States 1 (kf_C f) (kf_x_hat f))))\<rparr>"

text \<open>
  A client of a constructed filter calls its public member functions in any order. A call
  sequence is a list of calls; a call whose index is out of range stops the run.
\<close>

datatype call =
    Call_predict_dt real
  | Call_predict
  | Call_correct "real mat"
  | Call_reset
  | Call_set_x_hat "real mat"
  | Call_set_x_hat_at int real

fun do_call :: "linalg \<Rightarrow> nat \<Rightarrow> nat \<Rightarrow> kalman_filter \<Rightarrow> call \<Rightarrow> error + kalman_filter" where
  "do_call la States Outputs f (Call_predict_dt dt) = Inr (predict la States f dt)"
| "do_call la States Outputs f Call_predict = Inr (predict_nominal States f)"
| "do_call la States Outputs f (Call_correct y) = Inr (correct States Outputs f y)"
| "do_call la States Outputs f Call_reset = Inr (reset States f)"
| "do_call la States Outputs f (Call_set_x_hat x) = Inr (set_x_hat f x)"
| "do_call la States Outputs f (Call_set_x_hat_at i v) = set_x_hat_at States f i v"

fun do_calls :: "linalg \<Rightarrow> nat \<Rightarrow> nat \<Rightarrow> kalman_filter \<Rightarrow> call list \<Rightarrow> error + kalman_filter" where
  "do_calls la States Outputs f [] = Inr f"
| "do_calls la States Outputs f (c # cs) =
     (case do_call la States Outputs f c of
        Inl e \<Rightarrow> Inl e
      | Inr f' \<Rightarrow> do_calls la States Outputs f' cs)"

section \<open>A one-state instance of the delegated operations\<close>

text \<open>
  For one state and one output every matrix is a scalar: the exponential is the real
  exponential, the only eigenvalue is the entry itself, the rank is \<open>0\<close> or \<open>1\<close>, the
  linear solve is a division, and the Riccati equation
  \<open>a\<^sup>2 x - x - (a b x)\<^sup>2 / (b\<^sup>2 x + r) + q = 0\<close> has the closed-form non-negative solution
  below. The instance serves to evaluate the model on concrete systems.
\<close>

definition one_state_dare :: "real \<Rightarrow> real \<Rightarrow> real \<Rightarrow> real \<Rightarrow> real" where
  "one_state_dare a b q r =
     ((b * b * q + a * a * r - r) + sqrt ((b * b * q + a * a * r - r)\<^sup>2 + 4 * b * b * q * r)) /
     (2 * b * b)"

definition one_state_linalg :: linalg where
  "one_state_linalg =
     \<lparr>expm = (\<lambda>M. [[exp (M ! 0 ! 0)]]),
      eigenvalues = (\<lambda>M. [complex_of_real (M ! 0 ! 0)]),
      qr_rank = (\<lambda>E. if list_all (\<lambda>z. z = 0) (E ! 0) then 0 else 1),
      dare = (\<lambda>A B Q R. Some [[one_state_dare (A ! 0 ! 0) (B ! 0 ! 0) (Q ! 0 ! 0) (R ! 0 ! 0)]]),
      ldlt_solve = (\<lambda>S B. [[B ! 0 ! 0 / S ! 0 ! 0]])\<rparr>"

section \<open>Basic facts about matrices\<close>

lemma mat_of_nth: "i < r \<Longrightarrow> j < c \<Longrightarrow> mat_of r c f ! i ! j = f i j"
  by (simp add: mat_of_def)

lemma mat_of_cong:
  "(\<And>i j. i < r \<Longrightarrow> j < c \<Longrightarrow> f i j = g i j) \<Longrightarrow> mat_of r c f = mat_of r c g"
  by (simp add: mat_of_def)

lemma wf_mat_of: "wf_mat r c (mat_of r c f)"
  by (simp add: wf_mat_def mat_of_def list_all_iff)

lemma mat_of_id:
  assumes "wf_mat r c M"
  shows "mat_of r c (\<lambda>i j. M ! i ! j) = M"
proof (rule nth_equalityI)
  show "length (mat_of r c (\<lambda>i j. M ! i ! j)) = length M"
    using assms by (simp add: mat_of_def wf_mat_def)
next
  fix i assume "i < length (mat_of r c (\<lambda>i j. M ! i ! j))"
  then have i: "i < r" by (simp add: mat_of_def)
  with assms have len: "length (M ! i) = c"
    by (simp add: wf_mat_def list_all_length)
  have "map (\<lambda>j. M ! i ! j) [0..<c] = M ! i"
    using len map_nth [of "M ! i"] by simp
  with i show "mat_of r c (\<lambda>i j. M ! i ! j) ! i = M ! i"
    by (simp add: mat_of_def)
qed

lemma mul_mat_nth:
  "i < r \<Longrightarrow> j < c \<Longrightarrow> mul_mat r n c X Y ! i ! j = (\<Sum>k\<leftarrow>[0..<n]. X ! i ! k * Y ! k ! j)"
  by (simp add: mul_mat_def mat_of_nth)

lemma sum_list_upt_cong:
  "(\<And>k. k < n \<Longrightarrow> f k = g k) \<Longrightarrow> (\<Sum>k\<leftarrow>[0..<n]. f k) = (\<Sum>k\<leftarrow>[0..<n]. (g k :: real))"
  by (rule arg_cong [where f = sum_list]) simp

lemma transpose_mat_nth: "i < c \<Longrightarrow> j < r \<Longrightarrow> transpose_mat r c M ! i ! j = M ! j ! i"
  by (simp add: transpose_mat_def mat_of_nth)

lemma symmetrized_transpose:
  "transpose_mat n n (div_mat n n (add_mat n n Q (transpose_mat n n Q)) 2) =
   div_mat n n (add_mat n n Q (transpose_mat n n Q)) 2"
  unfolding transpose_mat_def div_mat_def add_mat_def
  by (rule mat_of_cong) (simp add: mat_of_nth add.commute)

lemma wf_div_mat: "wf_mat r c (div_mat r c X s)"
  by (simp add: div_mat_def wf_mat_of)

lemma sub_mat_self: "sub_mat r c Y Y = zero_mat r c"
  by (simp add: sub_mat_def zero_mat_def)

lemma mul_mat_zero: "mul_mat r n c X (zero_mat n c) = zero_mat r c"
proof -
  have "\<And>i j. j < c \<Longrightarrow> (\<Sum>k\<leftarrow>[0..<n]. X ! i ! k * zero_mat n c ! k ! j) = 0"
  proof -
    fix i j assume j: "j < c"
    have "(\<Sum>k\<leftarrow>[0..<n]. X ! i ! k * zero_mat n c ! k ! j) = (\<Sum>k\<leftarrow>[0..<n]. 0)"
      by (rule sum_list_upt_cong) (simp add: zero_mat_def mat_of_nth j)
    then show "(\<Sum>k\<leftarrow>[0..<n]. X ! i ! k * zero_mat n c ! k ! j) = 0" by simp
  qed
  then show ?thesis
    unfolding mul_mat_def by (subst (2) zero_mat_def) (rule mat_of_cong, simp)
qed

lemma add_mat_zero: "wf_mat r c X \<Longrightarrow> add_mat r c X (zero_mat r c) = X"
proof -
  assume wf: "wf_mat r c X"
  have "add_mat r c X (zero_mat r c) = mat_of r c (\<lambda>i j. X ! i ! j)"
    unfolding add_mat_def by (rule mat_of_cong) (simp add: zero_mat_def mat_of_nth)
  with wf show ?thesis by (simp add: mat_of_id)
qed

section \<open>Evaluation on one-state systems\<close>

lemma mat_of_1_1: "mat_of (Suc 0) (Suc 0) f = [[f 0 0]]"
  by (simp add: mat_of_def)

lemma mat_of_1_2: "mat_of (Suc 0) (Suc (Suc 0)) f = [[f 0 0, f 0 (Suc 0)]]"
  by (simp add: mat_of_def upt_conv_Cons)

lemma mul_mat_1: "mul_mat (Suc 0) (Suc 0) (Suc 0) X Y = [[X ! 0 ! 0 * Y ! 0 ! 0]]"
  by (simp add: mul_mat_def mat_of_1_1)

lemmas one_state_ops =
  mat_of_1_1 mul_mat_1 add_mat_def sub_mat_def neg_mat_def scale_mat_def div_mat_def
  transpose_mat_def zero_mat_def

lemma make_cov_matrix_1: "make_cov_matrix 1 [s] = [[s\<^sup>2]]"
  by (simp add: make_cov_matrix_def diagonal_to_dense_def mat_of_1_1
      make_cov_matrix_loop.simps [of "Suc 0" 0] make_cov_matrix_loop.simps [of "Suc 0" "Suc 0"])

lemma taylor_loop_1:
  "discretize_AQ_taylor_loop (Suc 0) [[0]] [[q]] dt 2 ([[q]], dt, [[q * dt]], [[0]]) =
   ([[0]], dt * (dt / 2) * (dt / 3) * (dt / 4) * (dt / 5), [[q * dt]], [[0]])"
  by (simp add: discretize_AQ_taylor_loop.simps [of _ _ _ _ 2]
      discretize_AQ_taylor_loop.simps [of _ _ _ _ 3]
      discretize_AQ_taylor_loop.simps [of _ _ _ _ 4]
      discretize_AQ_taylor_loop.simps [of _ _ _ _ 5]
      discretize_AQ_taylor_loop.simps [of _ _ _ _ 6] one_state_ops)

lemma discretize_AQ_taylor_1:
  "discretize_AQ_taylor one_state_linalg 1 [[0]] [[q]] dt = ([[1]], [[q * dt]])"
  by (simp add: discretize_AQ_taylor_def Let_def one_state_ops taylor_loop_1 discretize_A_def
      one_state_linalg_def)

lemma is_stabilizable_1:
  "is_stabilizable one_state_linalg 1 1 [[a]] [[b]] = (a * a < 1 \<or> b \<noteq> 0)"
  by (simp add: is_stabilizable_def is_stabilizable_loop.simps [of _ "Suc 0" _ _ _ 0]
      is_stabilizable_loop.simps [of _ "Suc 0" _ _ _ "Suc 0"] one_state_linalg_def
      stabilizable_E_def mat_of_1_2)

lemma one_state_dare_eval: "one_state_dare 1 1 (9 / 4) 1 = 3"
proof -
  have "sqrt (225 / 16) = 15 / 4"
    by (rule real_sqrt_unique) (simp_all add: power2_eq_square)
  then show ?thesis by (simp add: one_state_dare_def power2_eq_square)
qed

text \<open>
  The system \<open>A = 0\<close>, \<open>C = 1\<close> with state deviation \<open>3/2\<close>, measurement deviation \<open>1\<close> and
  \<open>dt = 1\<close>: discrete \<open>A = 1\<close>, \<open>Q = 9/4\<close>, \<open>R = 1\<close>, Riccati solution \<open>P = 3\<close>, \<open>S = 4\<close> and gain
  \<open>K = 3/4\<close>.
\<close>

lemma cov_one_state:
  "make_cov_matrix (Suc 0) [3 / 2] = [[9 / 4]]" "make_cov_matrix (Suc 0) [1] = [[1]]"
  using make_cov_matrix_1 [of "3 / 2"] make_cov_matrix_1 [of 1]
  by (simp_all add: power2_eq_square)

lemma taylor_one_state:
  "discretize_AQ_taylor one_state_linalg (Suc 0) [[0]] [[9 / 4]] 1 = ([[1]], [[9 / 4]])"
  using discretize_AQ_taylor_1 [of "9 / 4" 1] by simp

lemma taylor_one_state_unit:
  "discretize_AQ_taylor one_state_linalg (Suc 0) [[0]] [[1]] 1 = ([[1]], [[1]])"
  using discretize_AQ_taylor_1 [of 1 1] by simp

lemma dare_one_state: "dare one_state_linalg [[1]] [[1]] [[9 / 4]] [[1]] = Some [[3]]"
  using one_state_dare_eval by (simp add: one_state_linalg_def)

lemma ldlt_one_state: "ldlt_solve one_state_linalg [[4]] [[3]] = [[3 / 4]]"
  by (simp add: one_state_linalg_def)

lemma ctor_one_state:
  "kalman_filter_ctor one_state_linalg 1 1 [[0]] [[1]] [3 / 2] [1] 1 =
   Inr \<lparr>kf_A = [[0]], kf_C = [[1]], kf_disc_A_nominal = [[1]], kf_K = [[3 / 4]],
        kf_x_hat = [[0]]\<rparr>"
proof -
  have s: "is_stabilizable one_state_linalg (Suc 0) (Suc 0) [[1]] [[1]]"
    using is_stabilizable_1 [of 1 1] by simp
  show ?thesis
    by (simp add: kalman_filter_ctor_def Let_def cov_one_state taylor_one_state discretize_R_def
        one_state_ops s dare_one_state ldlt_one_state reset_def)
qed

section \<open>The covariance builder\<close>

lemma make_cov_matrix_loop_length:
  "length (make_cov_matrix_loop N i stdDevs diag) = length diag"
proof (induction N i stdDevs diag rule: make_cov_matrix_loop.induct)
  case (1 N i stdDevs diag)
  show ?case
  proof (cases "i < N")
    case True
    with "1" show ?thesis by (subst make_cov_matrix_loop.simps) simp
  next
    case False
    then show ?thesis by (subst make_cov_matrix_loop.simps) simp
  qed
qed

lemma make_cov_matrix_loop_nth:
  "length diag = N \<Longrightarrow> k < N \<Longrightarrow>
   make_cov_matrix_loop N i stdDevs diag ! k = (if i \<le> k then (stdDevs ! k) ^ 2 else diag ! k)"
proof (induction N i stdDevs diag rule: make_cov_matrix_loop.induct)
  case (1 N i stdDevs diag)
  show ?case
  proof (cases "i < N")
    case True
    have "make_cov_matrix_loop N i stdDevs diag ! k =
          make_cov_matrix_loop N (i + 1) stdDevs (diag[i := (stdDevs ! i) ^ 2]) ! k"
      using True by (subst make_cov_matrix_loop.simps) simp
    also have "\<dots> = (if i + 1 \<le> k then (stdDevs ! k) ^ 2 else diag[i := (stdDevs ! i) ^ 2] ! k)"
      using "1.IH" [OF True] "1.prems" by simp
    also have "\<dots> = (if i \<le> k then (stdDevs ! k) ^ 2 else diag ! k)"
      using True "1.prems" by (cases "i = k") auto
    finally show ?thesis .
  next
    case False
    with "1.prems" show ?thesis by (subst make_cov_matrix_loop.simps) simp
  qed
qed

lemma make_cov_matrix_loop_init:
  assumes "length d1 = N" "length d2 = N"
  shows "make_cov_matrix_loop N 0 stdDevs d1 = make_cov_matrix_loop N 0 stdDevs d2"
  by (rule nth_equalityI)
     (simp_all add: assms make_cov_matrix_loop_length make_cov_matrix_loop_nth)

text \<open>
  Claim C9. For a sequence of \<open>N\<close> standard deviations the covariance builder returns an
  \<open>N \<times> N\<close> matrix whose \<open>i\<close>-th diagonal entry is the square of the \<open>i\<close>-th input and whose
  off-diagonal entries are zero; every diagonal entry is non-negative whatever the sign
  of the input. The builder is a function of its input alone.
\<close>

theorem make_cov_matrix_diagonal:
  assumes "length stdDevs = N"
  shows "wf_mat N N (make_cov_matrix N stdDevs) \<and>
         (\<forall>i<N. \<forall>j<N. make_cov_matrix N stdDevs ! i ! j =
                        (if i = j then (stdDevs ! i) ^ 2 else 0)) \<and>
         (\<forall>i<N. 0 \<le> make_cov_matrix N stdDevs ! i ! i)"
  by (simp add: make_cov_matrix_def diagonal_to_dense_def wf_mat_of mat_of_nth
      make_cov_matrix_loop_nth)

theorem make_cov_matrix_diagonal_witness:
  "length [- 3, 2 :: real] = 2 \<and> make_cov_matrix 2 [- 3, 2] = [[9, 0], [0, 4]]"
proof -
  have len: "length [- 3, 2 :: real] = 2" by simp
  note h = make_cov_matrix_diagonal [OF len]
  have wf: "wf_mat 2 2 (make_cov_matrix 2 [- 3, 2])" using h by blast
  have e: "\<And>i j. i < 2 \<Longrightarrow> j < 2 \<Longrightarrow>
      make_cov_matrix 2 [- 3, 2] ! i ! j = (if i = j then ([- 3, 2 :: real] ! i) ^ 2 else 0)"
    using h by blast
  have "make_cov_matrix 2 [- 3, 2] = mat_of 2 2 (\<lambda>i j. make_cov_matrix 2 [- 3, 2] ! i ! j)"
    using mat_of_id [OF wf] by simp
  also have "\<dots> = mat_of 2 2 (\<lambda>i j. if i = j then ([- 3, 2 :: real] ! i) ^ 2 else 0)"
    by (rule mat_of_cong) (rule e)
  also have "\<dots> = [[9, 0], [0, 4]]"
    by (simp add: mat_of_def upt_conv_Cons)
  finally show ?thesis using len by simp
qed

section \<open>Stabilizability check\<close>

lemma all_from_split:
  assumes "i < (n::nat)"
  shows "(\<forall>k. i \<le> k \<and> k < n \<longrightarrow> P k) = (P i \<and> (\<forall>k. i + 1 \<le> k \<and> k < n \<longrightarrow> P k))"
proof
  assume h: "\<forall>k. i \<le> k \<and> k < n \<longrightarrow> P k"
  show "P i \<and> (\<forall>k. i + 1 \<le> k \<and> k < n \<longrightarrow> P k)"
    using h assms by simp
next
  assume h: "P i \<and> (\<forall>k. i + 1 \<le> k \<and> k < n \<longrightarrow> P k)"
  show "\<forall>k. i \<le> k \<and> k < n \<longrightarrow> P k"
  proof (intro allI impI)
    fix k assume k: "i \<le> k \<and> k < n"
    show "P k"
    proof (cases "k = i")
      case True
      with h show ?thesis by simp
    next
      case False
      with k have "i + 1 \<le> k \<and> k < n" by simp
      with h show ?thesis by blast
    qed
  qed
qed

lemma is_stabilizable_loop_iff:
  "is_stabilizable_loop la States Inputs A B i =
   (\<forall>k. i \<le> k \<and> k < States \<longrightarrow>
      (Re (eigenvalues la A ! k) * Re (eigenvalues la A ! k) +
       Im (eigenvalues la A ! k) * Im (eigenvalues la A ! k) < 1 \<or>
       \<not> qr_rank la (stabilizable_E States Inputs (eigenvalues la A ! k) A B) < States))"
proof (induction la States Inputs A B i rule: is_stabilizable_loop.induct)
  case (1 la States Inputs A B i)
  let ?ok = "\<lambda>k. Re (eigenvalues la A ! k) * Re (eigenvalues la A ! k) +
       Im (eigenvalues la A ! k) * Im (eigenvalues la A ! k) < 1 \<or>
       \<not> qr_rank la (stabilizable_E States Inputs (eigenvalues la A ! k) A B) < States"
  show ?case
  proof (cases "i < States")
    case False
    then show ?thesis by (subst is_stabilizable_loop.simps) simp
  next
    case True
    have split: "(\<forall>k. i \<le> k \<and> k < States \<longrightarrow> ?ok k) =
                 (?ok i \<and> (\<forall>k. i + 1 \<le> k \<and> k < States \<longrightarrow> ?ok k))"
      by (rule all_from_split [OF True])
    show ?thesis
    proof (cases "Re (eigenvalues la A ! i) * Re (eigenvalues la A ! i) +
                  Im (eigenvalues la A ! i) * Im (eigenvalues la A ! i) < 1")
      case small: True
      have "is_stabilizable_loop la States Inputs A B i =
            is_stabilizable_loop la States Inputs A B (i + 1)"
        using True small by (subst is_stabilizable_loop.simps) simp
      also have "\<dots> = (\<forall>k. i + 1 \<le> k \<and> k < States \<longrightarrow> ?ok k)"
        using "1.IH"(1) [OF True small] .
      finally show ?thesis using small split by simp
    next
      case big: False
      show ?thesis
      proof (cases "qr_rank la (stabilizable_E States Inputs (eigenvalues la A ! i) A B) < States")
        case deficient: True
        have "is_stabilizable_loop la States Inputs A B i = False"
          using True big deficient by (subst is_stabilizable_loop.simps) simp
        then show ?thesis using big deficient split by simp
      next
        case full: False
        have "is_stabilizable_loop la States Inputs A B i =
              is_stabilizable_loop la States Inputs A B (i + 1)"
          using True big full by (subst is_stabilizable_loop.simps) simp
        also have "\<dots> = (\<forall>k. i + 1 \<le> k \<and> k < States \<longrightarrow> ?ok k)"
          using "1.IH"(2) [OF True big full] .
        finally show ?thesis using full split by simp
      qed
    qed
  qed
qed

lemma cmod_square: "(cmod z)\<^sup>2 = Re z * Re z + Im z * Im z"
  using cmod_power2 [of z] by (simp add: power2_eq_square)

lemma cmod_less_1_iff: "cmod z < 1 \<longleftrightarrow> Re z * Re z + Im z * Im z < 1"
proof -
  have "cmod z < 1 \<longleftrightarrow> (cmod z)\<^sup>2 < 1"
    using abs_square_less_1 [of "cmod z"] by simp
  then show ?thesis by (simp add: cmod_square)
qed

text \<open>
  Claim C5. \<^verbatim>\<open>is_stabilizable(A, B)\<close> returns false exactly when some eigenvalue \<open>\<lambda>\<close> of \<open>A\<close> (as
  the eigenvalue solver lists them) with \<open>|\<lambda>|\<^sup>2 \<ge> 1\<close> gives the matrix \<open>[\<lambda>I - A | B]\<close> a rank below
  \<open>States\<close>; it returns true exactly when every eigenvalue either has \<open>|\<lambda>| < 1\<close>, which
  imposes no condition, or gives full row rank.
\<close>

theorem is_stabilizable_iff:
  "(is_stabilizable la States Inputs A B = False) =
     (\<exists>i<States. 1 \<le> (cmod (eigenvalues la A ! i))\<^sup>2 \<and>
        qr_rank la (stabilizable_E States Inputs (eigenvalues la A ! i) A B) < States) \<and>
   (is_stabilizable la States Inputs A B = True) =
     (\<forall>i<States. cmod (eigenvalues la A ! i) < 1 \<or>
        States \<le> qr_rank la (stabilizable_E States Inputs (eigenvalues la A ! i) A B))"
proof -
  let ?ev = "\<lambda>i. eigenvalues la A ! i"
  let ?m = "\<lambda>i. Re (?ev i) * Re (?ev i) + Im (?ev i) * Im (?ev i)"
  let ?rk = "\<lambda>i. qr_rank la (stabilizable_E States Inputs (?ev i) A B)"
  have loop: "is_stabilizable la States Inputs A B =
              (\<forall>k. k < States \<longrightarrow> (?m k < 1 \<or> \<not> ?rk k < States))"
    unfolding is_stabilizable_def by (subst is_stabilizable_loop_iff) simp
  have sq: "\<And>i. (cmod (?ev i))\<^sup>2 = ?m i" by (rule cmod_square)
  have lt: "\<And>i. (cmod (?ev i) < 1) = (?m i < 1)" by (rule cmod_less_1_iff)
  show ?thesis
    unfolding loop sq lt by (simp add: not_less not_le)
qed

theorem is_stabilizable_iff_witness:
  "\<not> is_stabilizable one_state_linalg 1 1 [[1]] [[0]] \<and>
   1 \<le> (cmod (eigenvalues one_state_linalg [[1]] ! 0))\<^sup>2 \<and>
   qr_rank one_state_linalg
     (stabilizable_E 1 1 (eigenvalues one_state_linalg [[1]] ! 0) [[1]] [[0]]) < 1 \<and>
   cmod (eigenvalues one_state_linalg [[1 / 2]] ! 0) < 1 \<and>
   is_stabilizable one_state_linalg 1 1 [[1 / 2]] [[0]]"
proof -
  have ev: "eigenvalues one_state_linalg [[1]] ! 0 = 1"
    "eigenvalues one_state_linalg [[1 / 2]] ! 0 = 1 / 2"
    by (simp_all add: one_state_linalg_def)
  have rk: "qr_rank one_state_linalg (stabilizable_E (Suc 0) (Suc 0) 1 [[1]] [[0]]) = 0"
    by (simp add: one_state_linalg_def stabilizable_E_def mat_of_1_2)
  have a: "\<not> is_stabilizable one_state_linalg 1 1 [[1]] [[0]]"
    using is_stabilizable_iff [of one_state_linalg 1 1 "[[1]]" "[[0]]"] by (simp add: ev rk)
  have b: "is_stabilizable one_state_linalg 1 1 [[1 / 2]] [[0]]"
    using is_stabilizable_iff [of one_state_linalg 1 1 "[[1 / 2]]" "[[0]]"] by (simp add: ev)
  show ?thesis using a b by (simp add: ev rk)
qed

section \<open>Discretizer\<close>

text \<open>
  The matrix exponential is a parameter of the model, so nothing here relates the
  exponential of the \<open>2n \<times> 2n\<close> block matrix of \<^verbatim>\<open>discretize_AQ\<close> to the exponential of
  \<open>A \<cdot> dt\<close>. The two discretizations are compared where they do not depend on it.
\<close>

text \<open>
  Claim C7. For every continuous \<open>Q\<close>, symmetric or not, the discrete \<open>Q\<close> returned by
  \<^verbatim>\<open>discretize_AQ\<close> and by \<^verbatim>\<open>discretize_AQ_taylor\<close> is a \<open>States \<times> States\<close> matrix equal to its
  own transpose.
\<close>

theorem disc_Q_symmetric:
  "transpose_mat States States (snd (discretize_AQ la States cont_A cont_Q dt)) =
     snd (discretize_AQ la States cont_A cont_Q dt) \<and>
   transpose_mat States States (snd (discretize_AQ_taylor la States cont_A cont_Q dt)) =
     snd (discretize_AQ_taylor la States cont_A cont_Q dt) \<and>
   wf_mat States States (snd (discretize_AQ la States cont_A cont_Q dt)) \<and>
   wf_mat States States (snd (discretize_AQ_taylor la States cont_A cont_Q dt))"
  by (simp add: discretize_AQ_def discretize_AQ_taylor_def Let_def symmetrized_transpose
      wf_div_mat split: prod.splits)

lemma mat_pow_step: "1 \<le> p \<Longrightarrow> mul_mat n n n (mat_pow n M p) M = mat_pow n M (Suc p)"
  by (cases p) simp_all

lemma taylor_loop_series:
  assumes "1 \<le> p"
  shows "discretize_AQ_taylor_loop n A Q dt i (T, c, Phi, mat_pow n (transpose_mat n n A) p) =
         (case foldl (series_step n A Q dt) (T, c, Phi, p) [i..<6] of
            (T', c', Phi', p') \<Rightarrow> (T', c', Phi', mat_pow n (transpose_mat n n A) p'))"
  using assms
proof (induction "6 - i" arbitrary: i T c Phi p)
  case 0
  then have "\<not> i < 6" by simp
  then show ?case by (subst discretize_AQ_taylor_loop.simps) simp
next
  case (Suc k)
  then have i: "i < 6" and k: "k = 6 - (i + 1)" by simp_all
  let ?T = "add_mat n n (mul_mat n n n (neg_mat n n A) T)
              (mul_mat n n n Q (mat_pow n (transpose_mat n n A) p))"
  let ?c = "c * (dt / real i)"
  let ?Phi = "add_mat n n Phi (scale_mat n n ?T ?c)"
  have p: "1 \<le> Suc p" by simp
  have "discretize_AQ_taylor_loop n A Q dt i (T, c, Phi, mat_pow n (transpose_mat n n A) p) =
        discretize_AQ_taylor_loop n A Q dt (i + 1)
          (?T, ?c, ?Phi, mat_pow n (transpose_mat n n A) (Suc p))"
    using i Suc.prems by (subst discretize_AQ_taylor_loop.simps) (simp add: mat_pow_step)
  also have "\<dots> = (case foldl (series_step n A Q dt) (?T, ?c, ?Phi, Suc p) [i + 1..<6] of
            (T', c', Phi', p') \<Rightarrow> (T', c', Phi', mat_pow n (transpose_mat n n A) p'))"
    by (rule Suc.hyps(1) [OF k p])
  also have "foldl (series_step n A Q dt) (?T, ?c, ?Phi, Suc p) [i + 1..<6] =
             foldl (series_step n A Q dt) (T, c, Phi, p) [i..<6]"
    using i by (simp add: upt_conv_Cons [of i 6] series_step_def Let_def)
  finally show ?case .
qed

text \<open>
  Claim C3. The truncated-series discretization symmetrizes \<open>Q\<close>, starts from the term
  \<open>Q_sym\<close>, the coefficient \<open>dt\<close> and the accumulator \<open>Q_sym \<cdot> dt\<close>, performs exactly the refinement
  steps \<open>i = 2, 3, 4, 5\<close> in the specification's words, and returns the exponential of
  \<open>A \<cdot> dt\<close> together with the symmetrized product of that exponential and the accumulator.
\<close>

theorem discretize_AQ_taylor_refines_series:
  "discretize_AQ_taylor la n A Q dt = discretize_AQ_series la n A Q dt \<and>
   fst (discretize_AQ_taylor la n A Q dt) = expm la (scale_mat n n A dt) \<and>
   series_steps = [2, 3, 4, 5]"
proof -
  have pow: "transpose_mat n n A = mat_pow n (transpose_mat n n A) 1" by simp
  have one: "(1::nat) \<le> 1" by simp
  have eq: "discretize_AQ_taylor la n A Q dt = discretize_AQ_series la n A Q dt"
    unfolding discretize_AQ_taylor_def discretize_AQ_series_def Let_def
    by (subst pow, subst taylor_loop_series [OF one])
       (simp add: series_steps_def symmetrize_def discretize_A_def split: prod.splits)
  show ?thesis
    by (simp add: eq series_steps_def) (simp add: discretize_AQ_series_def Let_def split: prod.splits)
qed

section \<open>Construction\<close>

lemma gain_equation:
  assumes "mul_mat Outputs Outputs States (transpose_mat Outputs Outputs S) X =
           mul_mat Outputs States States C (transpose_mat States States P)"
  shows "mul_mat States Outputs Outputs (transpose_mat Outputs States X) S =
         mul_mat States States Outputs P (transpose_mat Outputs States C)"
  unfolding mul_mat_def
proof (rule mat_of_cong)
  fix i j assume i: "i < States" and j: "j < Outputs"
  have "(\<Sum>k\<leftarrow>[0..<Outputs]. transpose_mat Outputs States X ! i ! k * S ! k ! j) =
        (\<Sum>k\<leftarrow>[0..<Outputs]. transpose_mat Outputs Outputs S ! j ! k * X ! k ! i)"
    by (rule sum_list_upt_cong) (simp add: transpose_mat_nth i j mult.commute)
  also have "\<dots> = mul_mat Outputs Outputs States (transpose_mat Outputs Outputs S) X ! j ! i"
    by (simp add: mul_mat_nth i j)
  also have "\<dots> = mul_mat Outputs States States C (transpose_mat States States P) ! j ! i"
    by (simp add: assms)
  also have "\<dots> = (\<Sum>l\<leftarrow>[0..<States]. C ! j ! l * transpose_mat States States P ! l ! i)"
    by (simp add: mul_mat_nth i j)
  also have "\<dots> = (\<Sum>l\<leftarrow>[0..<States]. P ! i ! l * transpose_mat Outputs States C ! l ! j)"
    by (rule sum_list_upt_cong) (simp add: transpose_mat_nth i j mult.commute)
  finally show "(\<Sum>k\<leftarrow>[0..<Outputs]. transpose_mat Outputs States X ! i ! k * S ! k ! j) =
                (\<Sum>l\<leftarrow>[0..<States]. P ! i ! l * transpose_mat Outputs States C ! l ! j)" .
qed

text \<open>
  Claim C1. When construction succeeds, the Riccati solver has returned some \<open>P\<close>; with
  \<open>S = C P C\<^sup>T + disc_R\<close> the stored gain is the transpose of the solution \<open>X\<close> that the linear
  solver returns for \<open>S\<^sup>T X = C P\<^sup>T\<close>, and if that solution is exact then \<open>K S = P C\<^sup>T\<close>.
\<close>

theorem gain_solves_linear_system:
  fixes la :: linalg and States Outputs :: nat and A C :: "real mat"
    and state_std_devs measurement_std_devs :: "real list" and dt :: real
  defines "cont_Q \<equiv> make_cov_matrix States state_std_devs"
    and "cont_R \<equiv> make_cov_matrix Outputs measurement_std_devs"
  defines "disc_A \<equiv> fst (discretize_AQ_taylor la States A cont_Q dt)"
    and "disc_Q \<equiv> snd (discretize_AQ_taylor la States A cont_Q dt)"
    and "disc_R \<equiv> discretize_R Outputs cont_R dt"
  assumes ok: "kalman_filter_ctor la States Outputs A C state_std_devs measurement_std_devs dt
               = Inr f"
  shows "\<exists>P. dare la (transpose_mat States States disc_A) (transpose_mat Outputs States C)
                disc_Q disc_R = Some P \<and>
           (let S = add_mat Outputs Outputs
                      (mul_mat Outputs States Outputs (mul_mat Outputs States States C P)
                         (transpose_mat Outputs States C))
                      disc_R;
                b = mul_mat Outputs States States C (transpose_mat States States P);
                X = ldlt_solve la (transpose_mat Outputs Outputs S) b
            in kf_K f = transpose_mat Outputs States X \<and>
               (mul_mat Outputs Outputs States (transpose_mat Outputs Outputs S) X = b \<longrightarrow>
                mul_mat States Outputs Outputs (kf_K f) S =
                mul_mat States States Outputs P (transpose_mat Outputs States C)))"
proof -
  obtain P where P: "dare la (transpose_mat States States disc_A)
      (transpose_mat Outputs States C) disc_Q disc_R = Some P"
    using ok unfolding kalman_filter_ctor_def cont_Q_def cont_R_def disc_A_def disc_Q_def
      disc_R_def
    by (auto simp: Let_def split: prod.splits if_splits option.splits)
  have K: "kf_K f = transpose_mat Outputs States
      (ldlt_solve la
         (transpose_mat Outputs Outputs
            (add_mat Outputs Outputs
               (mul_mat Outputs States Outputs (mul_mat Outputs States States C P)
                  (transpose_mat Outputs States C))
               disc_R))
         (mul_mat Outputs States States C (transpose_mat States States P)))"
    using ok P unfolding kalman_filter_ctor_def cont_Q_def cont_R_def disc_A_def disc_Q_def
      disc_R_def
    by (auto simp: Let_def reset_def split: prod.splits if_splits option.splits)
  show ?thesis
    unfolding Let_def
    by (rule exI [of _ P]) (simp add: P K gain_equation)
qed

theorem gain_solves_linear_system_witness:
  "kalman_filter_ctor one_state_linalg 1 1 [[0]] [[1]] [3 / 2] [1] 1 =
     Inr \<lparr>kf_A = [[0]], kf_C = [[1]], kf_disc_A_nominal = [[1]], kf_K = [[3 / 4]],
          kf_x_hat = [[0]]\<rparr> \<and>
   mul_mat 1 1 1 (transpose_mat 1 1 [[4]]) [[3 / 4]] = mul_mat 1 1 1 [[1]] (transpose_mat 1 1 [[3]]) \<and>
   mul_mat 1 1 1 [[3 / 4]] [[4]] = mul_mat 1 1 1 [[3]] (transpose_mat 1 1 [[1]])"
  using gain_solves_linear_system [OF ctor_one_state] ctor_one_state
  by (simp add: cov_one_state taylor_one_state dare_one_state ldlt_one_state discretize_R_def
      one_state_ops Let_def)

lemma is_stabilizable_linalg_update:
  "is_stabilizable (la\<lparr>dare := d, ldlt_solve := s\<rparr>) States Inputs A B =
   is_stabilizable la States Inputs A B"
  by (simp add: is_stabilizable_def is_stabilizable_loop_iff)

lemma discretize_AQ_taylor_linalg_update:
  "discretize_AQ_taylor (la\<lparr>dare := d, ldlt_solve := s\<rparr>) States A Q dt =
   discretize_AQ_taylor la States A Q dt"
  by (simp add: discretize_AQ_taylor_def discretize_A_def)

lemma ctor_not_observable_iff:
  "(kalman_filter_ctor la States Outputs A C sds mds dt = Inl Not_observable) =
   (\<not> is_stabilizable la States Outputs
        (transpose_mat States States
           (fst (discretize_AQ_taylor la States A (make_cov_matrix States sds) dt)))
        (transpose_mat Outputs States C))"
  by (simp add: kalman_filter_ctor_def Let_def split: prod.splits option.splits)

text \<open>
  Claim C2. Construction ends with the unobservable-system error exactly when
  \<^verbatim>\<open>is_stabilizable\<close> rejects the transposes of the truncated-series discrete \<open>A\<close> and of \<open>C\<close>;
  a constructed filter therefore passed the check, and on rejection the result is that error
  whatever the Riccati solver and the linear solver would compute.
\<close>

theorem ctor_unobservable_iff:
  fixes la :: linalg and States Outputs :: nat and A C :: "real mat"
    and state_std_devs measurement_std_devs :: "real list" and dt :: real
  defines "disc_A \<equiv>
      fst (discretize_AQ_taylor la States A (make_cov_matrix States state_std_devs) dt)"
  defines "is_observable \<equiv>
      is_stabilizable la States Outputs
        (transpose_mat States States disc_A) (transpose_mat Outputs States C)"
  shows "(kalman_filter_ctor la States Outputs A C state_std_devs measurement_std_devs dt =
            Inl Not_observable) = (\<not> is_observable) \<and>
         ((\<exists>f. kalman_filter_ctor la States Outputs A C state_std_devs measurement_std_devs dt =
            Inr f) \<longrightarrow> is_observable) \<and>
         (\<not> is_observable \<longrightarrow>
            (\<forall>d s. kalman_filter_ctor (la\<lparr>dare := d, ldlt_solve := s\<rparr>) States Outputs A C
                      state_std_devs measurement_std_devs dt = Inl Not_observable))"
proof (intro conjI)
  show iff: "(kalman_filter_ctor la States Outputs A C state_std_devs measurement_std_devs dt =
            Inl Not_observable) = (\<not> is_observable)"
    unfolding is_observable_def disc_A_def by (rule ctor_not_observable_iff)
  show "(\<exists>f. kalman_filter_ctor la States Outputs A C state_std_devs measurement_std_devs dt =
            Inr f) \<longrightarrow> is_observable"
    using iff by auto
  show "\<not> is_observable \<longrightarrow>
            (\<forall>d s. kalman_filter_ctor (la\<lparr>dare := d, ldlt_solve := s\<rparr>) States Outputs A C
                      state_std_devs measurement_std_devs dt = Inl Not_observable)"
    unfolding is_observable_def disc_A_def
    by (simp add: ctor_not_observable_iff is_stabilizable_linalg_update
        discretize_AQ_taylor_linalg_update)
qed

theorem ctor_unobservable_iff_witness:
  "kalman_filter_ctor one_state_linalg 1 1 [[0]] [[0]] [1] [1] 1 = Inl Not_observable \<and>
   \<not> is_stabilizable one_state_linalg 1 1 [[1]] [[0]] \<and>
   (\<exists>f. kalman_filter_ctor one_state_linalg 1 1 [[0]] [[1]] [3 / 2] [1] 1 = Inr f) \<and>
   is_stabilizable one_state_linalg 1 1 [[1]] [[1]]"
proof -
  have no: "\<not> is_stabilizable one_state_linalg (Suc 0) (Suc 0) [[1]] [[0]]"
    using is_stabilizable_1 [of 1 0] by simp
  have a: "kalman_filter_ctor one_state_linalg 1 1 [[0]] [[0]] [1] [1] 1 = Inl Not_observable"
    using ctor_unobservable_iff [of one_state_linalg 1 1 "[[0]]" "[[0]]" "[1]" "[1]" 1] no
    by (simp add: cov_one_state taylor_one_state_unit one_state_ops)
  have b: "is_stabilizable one_state_linalg 1 1 [[1]] [[1]]"
    using ctor_unobservable_iff [of one_state_linalg 1 1 "[[0]]" "[[1]]" "[3 / 2]" "[1]" 1]
      ctor_one_state
    by (simp add: cov_one_state taylor_one_state one_state_ops)
  show ?thesis using a b no ctor_one_state by simp
qed

section \<open>Runtime operations\<close>

lemma zero_mat_column: "zero_mat States 1 = replicate States [0]"
  by (simp add: zero_mat_def mat_of_def map_replicate_const)

lemma ctor_fields:
  assumes "kalman_filter_ctor la States Outputs A C sds mds dt = Inr f"
  shows "kf_A f = A" and "kf_C f = C"
    and "kf_disc_A_nominal f = expm la (scale_mat States States A dt)"
    and "kf_x_hat f = zero_mat States 1"
  using assms
  by (auto simp: kalman_filter_ctor_def Let_def reset_def discretize_AQ_taylor_def
      discretize_A_def split: prod.splits if_splits option.splits)

text \<open>
  Claim C4. \<^verbatim>\<open>predict(dt)\<close> replaces the estimate by the exponential of \<open>A \<cdot> dt\<close> times the
  estimate, \<^verbatim>\<open>predict()\<close> by the stored nominal discrete \<open>A\<close> times the estimate, and
  \<^verbatim>\<open>correct(y)\<close> by \<open>x + K (y - C x)\<close>; each leaves the other fields as they are, and in a
  constructed filter the stored nominal discrete \<open>A\<close> is the exponential of \<open>A\<close> times the
  nominal timestep.
\<close>

theorem predict_correct_updates:
  "predict la States f dt =
     f\<lparr>kf_x_hat := mul_mat States States 1
          (expm la (scale_mat States States (kf_A f) dt)) (kf_x_hat f)\<rparr> \<and>
   predict_nominal States f =
     f\<lparr>kf_x_hat := mul_mat States States 1 (kf_disc_A_nominal f) (kf_x_hat f)\<rparr> \<and>
   correct States Outputs f y =
     f\<lparr>kf_x_hat := add_mat States 1 (kf_x_hat f)
          (mul_mat States Outputs 1 (kf_K f)
             (sub_mat Outputs 1 y (mul_mat Outputs States 1 (kf_C f) (kf_x_hat f))))\<rparr> \<and>
   (\<forall>i<States. kf_x_hat (correct States Outputs f y) ! i ! 0 =
      kf_x_hat f ! i ! 0 +
      (\<Sum>k\<leftarrow>[0..<Outputs]. kf_K f ! i ! k *
         (y ! k ! 0 - (\<Sum>l\<leftarrow>[0..<States]. kf_C f ! k ! l * kf_x_hat f ! l ! 0)))) \<and>
   (kalman_filter_ctor la States Outputs A C state_std_devs measurement_std_devs dt0 = Inr f \<longrightarrow>
      kf_A f = A \<and> kf_disc_A_nominal f = expm la (scale_mat States States A dt0))"
proof (intro conjI allI impI)
  fix i assume i: "i < States"
  have "\<And>k. k < Outputs \<Longrightarrow>
      sub_mat Outputs 1 y (mul_mat Outputs States 1 (kf_C f) (kf_x_hat f)) ! k ! 0 =
      y ! k ! 0 - (\<Sum>l\<leftarrow>[0..<States]. kf_C f ! k ! l * kf_x_hat f ! l ! 0)"
    by (simp add: sub_mat_def mat_of_nth mul_mat_nth)
  then have "(\<Sum>k\<leftarrow>[0..<Outputs]. kf_K f ! i ! k *
        sub_mat Outputs 1 y (mul_mat Outputs States 1 (kf_C f) (kf_x_hat f)) ! k ! 0) =
      (\<Sum>k\<leftarrow>[0..<Outputs]. kf_K f ! i ! k *
         (y ! k ! 0 - (\<Sum>l\<leftarrow>[0..<States]. kf_C f ! k ! l * kf_x_hat f ! l ! 0)))"
    by (intro sum_list_upt_cong) simp
  then show "kf_x_hat (correct States Outputs f y) ! i ! 0 =
      kf_x_hat f ! i ! 0 +
      (\<Sum>k\<leftarrow>[0..<Outputs]. kf_K f ! i ! k *
         (y ! k ! 0 - (\<Sum>l\<leftarrow>[0..<States]. kf_C f ! k ! l * kf_x_hat f ! l ! 0)))"
    using i by (simp add: correct_def add_mat_def mat_of_nth mul_mat_nth)
qed (simp_all add: predict_def predict_nominal_def correct_def discretize_A_def Let_def ctor_fields)

theorem predict_correct_updates_witness:
  "kalman_filter_ctor one_state_linalg 1 1 [[0]] [[1]] [3 / 2] [1] 1 =
     Inr \<lparr>kf_A = [[0]], kf_C = [[1]], kf_disc_A_nominal = [[1]], kf_K = [[3 / 4]],
          kf_x_hat = [[0]]\<rparr> \<and>
   expm one_state_linalg (scale_mat 1 1 [[0]] 1) = [[1]] \<and>
   kf_x_hat (correct 1 1 \<lparr>kf_A = [[0]], kf_C = [[1]], kf_disc_A_nominal = [[1]],
       kf_K = [[3 / 4]], kf_x_hat = [[2]]\<rparr> [[6]]) = [[5]]"
proof -
  let ?f = "\<lparr>kf_A = [[0]], kf_C = [[1]], kf_disc_A_nominal = [[1]], kf_K = [[3 / 4]],
          kf_x_hat = [[0::real]]\<rparr>"
  let ?g = "\<lparr>kf_A = [[0]], kf_C = [[1]], kf_disc_A_nominal = [[1]], kf_K = [[3 / 4]],
          kf_x_hat = [[2::real]]\<rparr>"
  have a: "expm one_state_linalg (scale_mat 1 1 [[0]] 1) = [[1]]"
    using predict_correct_updates [of one_state_linalg 1 ?f 1 1 "[[0]]" "[[0]]" "[[1]]" "[3 / 2]" "[1]" 1]
      ctor_one_state by simp
  have b: "kf_x_hat (correct 1 1 ?g [[6]]) = [[5]]"
    using predict_correct_updates [of one_state_linalg 1 ?g 1 1 "[[6]]" "[[0]]" "[[1]]" "[3 / 2]" "[1]" 1]
    by (simp add: one_state_ops)
  show ?thesis using a b ctor_one_state by simp
qed

lemma do_call_frame:
  "do_call la States Outputs f c = Inr f' \<Longrightarrow> f' = f\<lparr>kf_x_hat := kf_x_hat f'\<rparr>"
  by (cases c)
     (auto simp: predict_def predict_nominal_def correct_def reset_def set_x_hat_def
        set_x_hat_at_def Let_def split: if_splits)

lemma do_calls_frame:
  "do_calls la States Outputs f cs = Inr f' \<Longrightarrow> f' = f\<lparr>kf_x_hat := kf_x_hat f'\<rparr>"
proof (induction cs arbitrary: f)
  case Nil
  then show ?case by simp
next
  case (Cons c cs)
  then obtain f1 where c: "do_call la States Outputs f c = Inr f1"
    and cs: "do_calls la States Outputs f1 cs = Inr f'"
    by (auto split: sum.splits)
  have "f1 = f\<lparr>kf_x_hat := kf_x_hat f1\<rparr>" by (rule do_call_frame [OF c])
  moreover have "f' = f1\<lparr>kf_x_hat := kf_x_hat f'\<rparr>" by (rule Cons.IH [OF cs])
  ultimately show ?case by (metis kalman_filter.update_convs(5) kalman_filter.surjective)
qed

text \<open>
  Claim C8. Every sequence of runtime calls leaves \<open>A\<close>, \<open>C\<close>, the nominal discrete \<open>A\<close> and
  \<open>K\<close> as they were and changes at most the estimate, so the accessors of \<open>K\<close> return what
  they returned before; after \<^verbatim>\<open>reset()\<close> and right after construction the estimate is the
  zero vector.
\<close>

theorem runtime_calls_frame:
  "(do_calls la States Outputs f cs = Inr f' \<longrightarrow>
      kf_A f' = kf_A f \<and> kf_C f' = kf_C f \<and> kf_disc_A_nominal f' = kf_disc_A_nominal f \<and>
      kf_K f' = kf_K f \<and> f' = f\<lparr>kf_x_hat := kf_x_hat f'\<rparr> \<and>
      K_get f' = K_get f \<and> K_at States Outputs f' i j = K_at States Outputs f i j) \<and>
   kf_x_hat (reset States f) = replicate States [0] \<and>
   (kalman_filter_ctor la States Outputs A C state_std_devs measurement_std_devs dt = Inr f \<longrightarrow>
      kf_x_hat f = replicate States [0])"
proof (intro conjI impI)
  assume run: "do_calls la States Outputs f cs = Inr f'"
  have eq: "f' = f\<lparr>kf_x_hat := kf_x_hat f'\<rparr>" by (rule do_calls_frame [OF run])
  show "f' = f\<lparr>kf_x_hat := kf_x_hat f'\<rparr>" by (rule eq)
  show "kf_A f' = kf_A f" by (subst eq) simp
  show "kf_C f' = kf_C f" by (subst eq) simp
  show "kf_disc_A_nominal f' = kf_disc_A_nominal f" by (subst eq) simp
  show K: "kf_K f' = kf_K f" by (subst eq) simp
  show "K_get f' = K_get f" by (simp add: K_get_def K)
  show "K_at States Outputs f' i j = K_at States Outputs f i j" by (simp add: K_at_def K)
next
  show "kf_x_hat (reset States f) = replicate States [0]"
    using zero_mat_column [of States] by (simp add: reset_def)
next
  assume "kalman_filter_ctor la States Outputs A C state_std_devs measurement_std_devs dt = Inr f"
  then show "kf_x_hat f = replicate States [0]"
    using zero_mat_column [of States] by (simp add: ctor_fields(4))
qed

theorem runtime_calls_frame_witness:
  "kalman_filter_ctor one_state_linalg 1 1 [[0]] [[1]] [3 / 2] [1] 1 =
     Inr \<lparr>kf_A = [[0]], kf_C = [[1]], kf_disc_A_nominal = [[1]], kf_K = [[3 / 4]],
          kf_x_hat = [[0]]\<rparr> \<and>
   do_calls one_state_linalg 1 1
     \<lparr>kf_A = [[0]], kf_C = [[1]], kf_disc_A_nominal = [[1]], kf_K = [[3 / 4]], kf_x_hat = [[0]]\<rparr>
     [Call_set_x_hat [[2]], Call_predict, Call_correct [[6]], Call_predict_dt 1,
      Call_set_x_hat_at 0 7] =
     Inr \<lparr>kf_A = [[0]], kf_C = [[1]], kf_disc_A_nominal = [[1]], kf_K = [[3 / 4]],
          kf_x_hat = [[7]]\<rparr> \<and>
   K_at 1 1 \<lparr>kf_A = [[0]], kf_C = [[1]], kf_disc_A_nominal = [[1]], kf_K = [[3 / 4]],
          kf_x_hat = [[7]]\<rparr> 0 0 = Inr (3 / 4)"
proof -
  let ?f = "\<lparr>kf_A = [[0]], kf_C = [[1]], kf_disc_A_nominal = [[1]], kf_K = [[3 / 4]],
          kf_x_hat = [[0::real]]\<rparr>"
  let ?g = "\<lparr>kf_A = [[0]], kf_C = [[1]], kf_disc_A_nominal = [[1]], kf_K = [[3 / 4]],
          kf_x_hat = [[7::real]]\<rparr>"
  let ?cs = "[Call_set_x_hat [[2]], Call_predict, Call_correct [[6]], Call_predict_dt 1,
      Call_set_x_hat_at 0 7]"
  have run: "do_calls one_state_linalg 1 1 ?f ?cs = Inr ?g"
    by (simp add: set_x_hat_def predict_nominal_def correct_def predict_def discretize_A_def
        set_x_hat_at_def one_state_ops one_state_linalg_def)
  have k0: "K_at 1 1 ?f 0 0 = Inr (3 / 4)" by (simp add: K_at_def)
  have "K_at 1 1 ?g 0 0 = K_at 1 1 ?f 0 0"
    using runtime_calls_frame [of one_state_linalg 1 1 ?f ?cs ?g 0 0 "[[0]]" "[[1]]" "[3 / 2]" "[1]" 1]
      run by blast
  with k0 run ctor_one_state show ?thesis by simp
qed

text \<open>
  Claim C10. If the measurement equals the predicted measurement \<open>C x\<close>, then \<^verbatim>\<open>correct\<close>
  leaves the filter, and so its estimate, unchanged, whatever the gain is.
\<close>

theorem correct_fixed_point:
  assumes "wf_mat States 1 (kf_x_hat f)"
    and "y = mul_mat Outputs States 1 (kf_C f) (kf_x_hat f)"
  shows "correct States Outputs f y = f"
  using assms by (simp add: correct_def sub_mat_self mul_mat_zero add_mat_zero)

theorem correct_fixed_point_witness:
  "wf_mat 1 1 [[2 :: real]] \<and>
   [[2]] = mul_mat 1 1 1 [[1]] [[2]] \<and>
   correct 1 1 \<lparr>kf_A = [[0]], kf_C = [[1]], kf_disc_A_nominal = [[1]], kf_K = [[3 / 4]],
       kf_x_hat = [[2]]\<rparr> [[2]] =
     \<lparr>kf_A = [[0]], kf_C = [[1]], kf_disc_A_nominal = [[1]], kf_K = [[3 / 4]],
      kf_x_hat = [[2]]\<rparr>"
proof -
  let ?g = "\<lparr>kf_A = [[0]], kf_C = [[1]], kf_disc_A_nominal = [[1]], kf_K = [[3 / 4]],
          kf_x_hat = [[2::real]]\<rparr>"
  have wf: "wf_mat 1 1 (kf_x_hat ?g)" by (simp add: wf_mat_def)
  have y: "[[2]] = mul_mat 1 1 1 (kf_C ?g) (kf_x_hat ?g)" by (simp add: one_state_ops)
  show ?thesis using correct_fixed_point [OF wf y] wf y by simp
qed

end
